theory Spec2Isabelle
  imports Main "HOL-Library.Sublist"
begin

section \<open>The room server of \<^verbatim>\<open>server/index.js\<close>\<close>

text \<open>
  The server keeps one object \<^verbatim>\<open>rooms\<close> and registers six handlers on every socket.
  Each handler is modelled as a function from the server state to the new server state
  and the list of messages it emits, in the order of the \<^verbatim>\<open>emit\<close> calls.

  Values that come from a client message and may be left out are options: \<open>None\<close> is
  JavaScript's \<^verbatim>\<open>undefined\<close>. Identifiers (room, user, action and socket ids) are strings,
  so \<^verbatim>\<open>===\<close> on them is equality and the falsy ones are \<^verbatim>\<open>undefined\<close> and the empty
  string. A payload (\<^verbatim>\<open>data\<close>) is an object, that is a finite map from field names to
  values of an arbitrary type \<open>'v\<close>, or \<^verbatim>\<open>undefined\<close>.

  The object \<^verbatim>\<open>rooms\<close> is a plain object used as a dictionary from property keys to rooms.
  The model keeps its own properties in a map and reads a key the way JavaScript does: an
  own property first, then the properties every object inherits (\<^verbatim>\<open>constructor\<close>,
  \<^verbatim>\<open>toString\<close>, ...), whose values are truthy and are not rooms. A handler that reads
  \<^verbatim>\<open>actions\<close> or \<^verbatim>\<open>clients\<close> of such a value gets \<^verbatim>\<open>undefined\<close> and throws a \<^verbatim>\<open>TypeError\<close> on the
  method call. Nothing in the file catches it: the server records the uncaught exception
  and handles no further event.
\<close>

subsection \<open>Data\<close>

text \<open>An action as a client sends it: \<^verbatim>\<open>id\<close>, \<^verbatim>\<open>userId\<close>, \<^verbatim>\<open>data\<close>, \<^verbatim>\<open>undone\<close>, and every other
  field (\<^verbatim>\<open>type\<close>, \<^verbatim>\<open>timestamp\<close>, ...) in \<open>act_rest\<close>.\<close>

record 'v action =
  act_id :: "string option"
  act_userId :: "string option"
  act_data :: "(string \<rightharpoonup> 'v) option"
  act_undone :: "bool option"
  act_rest :: "string \<rightharpoonup> 'v"

text \<open>\<^verbatim>\<open>{ actions: [], clients: new Set(), users: new Map() }\<close>. A JavaScript \<^verbatim>\<open>Map\<close> keeps
  its keys in insertion order, so \<open>users\<close> is an association list.\<close>

record 'v room =
  actions :: "'v action list"
  clients :: "string set"
  users :: "(string \<times> string) list"

text \<open>A socket: its id, the two fields the join handler stores on it, and the rooms of
  the transport it has joined (\<^verbatim>\<open>socket.join\<close>).\<close>

record socket =
  sock_id :: string
  roomId :: "string option"
  userId :: "string option"
  joined :: "string set"

datatype error = TypeError

text \<open>The process: the own properties of \<^verbatim>\<open>rooms\<close>, the connected sockets, and the exception
  that ended it, if one did.\<close>

record 'v server =
  rooms :: "string \<rightharpoonup> 'v room"
  sockets :: "string \<rightharpoonup> socket"
  uncaught :: "error option"

text \<open>The three ways the handlers address a message: \<^verbatim>\<open>socket.emit\<close>,
  \<^verbatim>\<open>socket.to(r).emit\<close> and \<^verbatim>\<open>io.to(r).emit\<close>.\<close>

datatype target =
  ToSocket string
  | ToOthers "string option" string
  | ToRoom "string option"

datatype 'v msg =
  RoomState string "'v action list" "string list"
  | UserJoined "string option"
  | ActionAdded "'v action"
  | ActionUpdated "string option" "(string \<rightharpoonup> 'v) option"
  | UpdateDenied "string option" string
  | ActionUndone "string option" "string option"
  | UndoDenied "string option" string
  | ActionRedone "string option" "string option"
  | RedoDenied "string option" string
  | UserLeft string

type_synonym 'v outbox = "(target \<times> 'v msg) list"

subsection \<open>JavaScript helpers\<close>

text \<open>Truthiness of an identifier: \<^verbatim>\<open>undefined\<close> and \<^verbatim>\<open>''\<close> are falsy.\<close>

fun truthy :: "string option \<Rightarrow> bool" where
  "truthy None = False"
| "truthy (Some s) = (s \<noteq> [])"

text \<open>\<^verbatim>\<open>rooms[roomId]\<close> converts the subscript to a property key.\<close>

fun room_key :: "string option \<Rightarrow> string" where
  "room_key None = ''undefined''"
| "room_key (Some r) = r"

text \<open>\<^verbatim>\<open>{ ...x }\<close>: the fields of an object, none for \<^verbatim>\<open>undefined\<close>.\<close>

fun spread :: "(string \<rightharpoonup> 'v) option \<Rightarrow> (string \<rightharpoonup> 'v)" where
  "spread None = Map.empty"
| "spread (Some m) = m"

text \<open>\<^verbatim>\<open>Array.prototype.findIndex\<close>: the first index whose element satisfies the
  predicate, \<open>-1\<close> when there is none.\<close>

fun findIndex_from :: "('a \<Rightarrow> bool) \<Rightarrow> 'a list \<Rightarrow> int \<Rightarrow> int" where
  "findIndex_from P [] i = - 1"
| "findIndex_from P (x # xs) i = (if P x then i else findIndex_from P xs (i + 1))"

definition findIndex :: "('a \<Rightarrow> bool) \<Rightarrow> 'a list \<Rightarrow> int" where
  "findIndex P xs = findIndex_from P xs 0"

text \<open>\<^verbatim>\<open>Map.prototype.set\<close>, \<^verbatim>\<open>has\<close>, \<^verbatim>\<open>get\<close>, \<^verbatim>\<open>delete\<close> and \<^verbatim>\<open>values\<close>.\<close>

fun Map_set :: "('k \<times> 'w) list \<Rightarrow> 'k \<Rightarrow> 'w \<Rightarrow> ('k \<times> 'w) list" where
  "Map_set [] k v = [(k, v)]"
| "Map_set (p # m) k v = (if fst p = k then (k, v) # m else p # Map_set m k v)"

definition Map_get :: "('k \<times> 'w) list \<Rightarrow> 'k \<Rightarrow> 'w option" where
  "Map_get m k = map_of m k"

definition Map_has :: "('k \<times> 'w) list \<Rightarrow> 'k \<Rightarrow> bool" where
  "Map_has m k = (Map_get m k \<noteq> None)"

definition Map_delete :: "('k \<times> 'w) list \<Rightarrow> 'k \<Rightarrow> ('k \<times> 'w) list" where
  "Map_delete m k = filter (\<lambda>p. fst p \<noteq> k) m"

definition Map_values :: "('k \<times> 'w) list \<Rightarrow> 'w list" where
  "Map_values m = map snd m"

subsection \<open>The registry\<close>

definition empty_room :: "'v room" where
  "empty_room = \<lparr>actions = [], clients = {}, users = []\<rparr>"

text \<open>The properties that the object literal \<^verbatim>\<open>{}\<close> inherits from \<^verbatim>\<open>Object.prototype\<close>.\<close>

definition inherited_keys :: "string list" where
  "inherited_keys =
     [''constructor'', ''hasOwnProperty'', ''isPrototypeOf'', ''propertyIsEnumerable'',
      ''toLocaleString'', ''toString'', ''valueOf'', ''__proto__'',
      ''__defineGetter__'', ''__defineSetter__'', ''__lookupGetter__'', ''__lookupSetter__'']"

text \<open>What \<^verbatim>\<open>rooms[k]\<close> evaluates to when it is not \<^verbatim>\<open>undefined\<close>: a room, or an inherited
  function or object.\<close>

datatype 'v slot = Room "'v room" | Inherited

definition rooms_get :: "'v server \<Rightarrow> string \<Rightarrow> 'v slot option" where
  "rooms_get srv k =
     (case rooms srv k of
        Some r \<Rightarrow> Some (Room r)
      | None \<Rightarrow> if k \<in> set inherited_keys then Some Inherited else None)"

text \<open>\<^verbatim>\<open>ensureRoom\<close> (lines 20-25): the room is created when the lookup is falsy, and the
  function returns the lookup made afterwards.\<close>

definition ensureRoom :: "'v server \<Rightarrow> string option \<Rightarrow> 'v server \<times> 'v slot option" where
  "ensureRoom srv rid =
     (let k = room_key rid;
          srv' = (if rooms_get srv k = None
                  then srv\<lparr>rooms := (rooms srv)(k \<mapsto> empty_room)\<rparr>
                  else srv)
      in (srv', rooms_get srv' k))"

text \<open>A method call on a field that is \<^verbatim>\<open>undefined\<close>: the handler stops there, having emitted
  nothing yet, and the exception is uncaught.\<close>

definition raise_TypeError :: "'v server \<Rightarrow> 'v server \<times> (target \<times> 'v msg) list" where
  "raise_TypeError srv = (srv\<lparr>uncaught := Some TypeError\<rparr>, [])"

text \<open>A handler mutates the room object it got from \<^verbatim>\<open>ensureRoom\<close> in place; the model
  stores the changed room back under the key it was read from.\<close>

definition put_room :: "'v server \<Rightarrow> string \<Rightarrow> 'v room \<Rightarrow> 'v server" where
  "put_room srv k r = srv\<lparr>rooms := (rooms srv)(k \<mapsto> r)\<rparr>"

text \<open>The room a handler works on under key \<open>k\<close>: the stored one, or the empty room that
  \<^verbatim>\<open>ensureRoom\<close> would create.\<close>

definition room_at :: "'v server \<Rightarrow> string \<Rightarrow> 'v room" where
  "room_at srv k = (case rooms srv k of None \<Rightarrow> empty_room | Some r \<Rightarrow> r)"

text \<open>Whether key \<open>k\<close> can hold a room: \<^verbatim>\<open>rooms[k]\<close> is a room or \<^verbatim>\<open>undefined\<close>, not an
  inherited value.\<close>

definition usable :: "'v server \<Rightarrow> string \<Rightarrow> bool" where
  "usable srv k = (rooms_get srv k \<noteq> Some Inherited)"

subsection \<open>The handlers\<close>

text \<open>\<^verbatim>\<open>io.on('connection', ...)\<close>: a new socket has no \<^verbatim>\<open>roomId\<close> and no \<^verbatim>\<open>userId\<close>; the
  transport puts every socket in the room named by its own id.\<close>

definition connect :: "string \<Rightarrow> 'v server \<Rightarrow> 'v server" where
  "connect sid srv =
     srv\<lparr>sockets := (sockets srv)(sid \<mapsto>
            \<lparr>sock_id = sid, roomId = None, userId = None, joined = {sid}\<rparr>)\<rparr>"

text \<open>\<^verbatim>\<open>join-room\<close> (lines 30-55). The argument \<open>uuid\<close> is what \<^verbatim>\<open>uuidv4()\<close> returns when
  it is called. This handler has no guard on the result of \<^verbatim>\<open>ensureRoom\<close>: on anything
  but a room \<^verbatim>\<open>room.clients.add\<close> (line 39) throws, after the socket has been changed and
  before any message.\<close>

definition join_room ::
  "string \<Rightarrow> socket \<Rightarrow> string option \<Rightarrow> string option \<Rightarrow> 'v server \<Rightarrow> 'v server \<times> 'v outbox"
where
  "join_room uuid sock rid0 uid srv =
     (let rid = (case rid0 of None \<Rightarrow> uuid | Some r \<Rightarrow> if r = [] then uuid else r);
          sock' = sock\<lparr>roomId := Some rid, userId := uid,
                       joined := insert rid (joined sock)\<rparr>;
          srv0 = srv\<lparr>sockets := (sockets srv)(sock_id sock \<mapsto> sock')\<rparr>
      in case ensureRoom srv0 (Some rid) of
           (srv1, None) \<Rightarrow> raise_TypeError srv1
         | (srv1, Some Inherited) \<Rightarrow> raise_TypeError srv1
         | (srv1, Some (Room room)) \<Rightarrow>
             (let room1 = room\<lparr>clients := insert (sock_id sock) (clients room)\<rparr>;
                  room2 = (case uid of
                             None \<Rightarrow> room1
                           | Some u \<Rightarrow>
                               if u = [] then room1
                               else room1\<lparr>users := Map_set (users room1) (sock_id sock) u\<rparr>)
              in (put_room srv1 rid room2,
                  [(ToSocket (sock_id sock),
                      RoomState rid (actions room2) (Map_values (users room2))),
                   (ToOthers (Some rid) (sock_id sock), UserJoined uid)])))"

text \<open>\<^verbatim>\<open>add-action\<close> (lines 57-62). In this and the next three handlers the first branch
  of the \<open>case\<close> is the guard \<^verbatim>\<open>if (!room) return\<close>, and the second is \<^verbatim>\<open>room.actions\<close> being
  \<^verbatim>\<open>undefined\<close> on an inherited value, where \<^verbatim>\<open>push\<close> or \<^verbatim>\<open>findIndex\<close> throws.\<close>

definition add_action :: "socket \<Rightarrow> 'v action \<Rightarrow> 'v server \<Rightarrow> 'v server \<times> 'v outbox" where
  "add_action sock action srv =
     (case ensureRoom srv (roomId sock) of
        (srv1, None) \<Rightarrow> (srv1, [])
      | (srv1, Some Inherited) \<Rightarrow> raise_TypeError srv1
      | (srv1, Some (Room room)) \<Rightarrow>
          (put_room srv1 (room_key (roomId sock)) (room\<lparr>actions := actions room @ [action]\<rparr>),
           [(ToOthers (roomId sock) (sock_id sock), ActionAdded action)]))"

text \<open>\<^verbatim>\<open>update-action\<close> (lines 64-76). \<open>replace\<close> is the truthiness of the field.\<close>

definition update_action ::
  "socket \<Rightarrow> string option \<Rightarrow> (string \<rightharpoonup> 'v) option \<Rightarrow> bool \<Rightarrow> string option \<Rightarrow>
   'v server \<Rightarrow> 'v server \<times> 'v outbox"
where
  "update_action sock actionId dat replace uid srv =
     (case ensureRoom srv (roomId sock) of
        (srv1, None) \<Rightarrow> (srv1, [])
      | (srv1, Some Inherited) \<Rightarrow> raise_TypeError srv1
      | (srv1, Some (Room room)) \<Rightarrow>
          (let idx = findIndex (\<lambda>a. act_id a = actionId) (actions room)
           in if idx = - 1 then (srv1, [])
              else (let action = actions room ! nat idx
                    in if act_userId action \<noteq> uid
                       then (srv1, [(ToSocket (sock_id sock), UpdateDenied actionId ''not-owner'')])
                       else (let action' = action\<lparr>act_data :=
                                    (if replace then dat
                                     else Some (spread (act_data action) ++ spread dat))\<rparr>
                             in (put_room srv1 (room_key (roomId sock))
                                   (room\<lparr>actions := (actions room)[nat idx := action']\<rparr>),
                                 [(ToRoom (roomId sock),
                                     ActionUpdated actionId (act_data action'))])))))"

text \<open>\<^verbatim>\<open>undo-action\<close> (lines 78-90).\<close>

definition undo_action ::
  "socket \<Rightarrow> string option \<Rightarrow> string option \<Rightarrow> 'v server \<Rightarrow> 'v server \<times> 'v outbox"
where
  "undo_action sock actionId uid srv =
     (case ensureRoom srv (roomId sock) of
        (srv1, None) \<Rightarrow> (srv1, [])
      | (srv1, Some Inherited) \<Rightarrow> raise_TypeError srv1
      | (srv1, Some (Room room)) \<Rightarrow>
          (let idx = findIndex (\<lambda>a. act_id a = actionId) (actions room)
           in if idx = - 1 then (srv1, [])
              else (let action = actions room ! nat idx
                    in if act_userId action \<noteq> uid
                       then (srv1, [(ToSocket (sock_id sock), UndoDenied actionId ''not-owner'')])
                       else (put_room srv1 (room_key (roomId sock))
                               (room\<lparr>actions :=
                                  (actions room)[nat idx := action\<lparr>act_undone := Some True\<rparr>]\<rparr>),
                             [(ToRoom (roomId sock), ActionUndone actionId uid)]))))"

text \<open>\<^verbatim>\<open>redo-action\<close> (lines 92-104).\<close>

definition redo_action ::
  "socket \<Rightarrow> string option \<Rightarrow> string option \<Rightarrow> 'v server \<Rightarrow> 'v server \<times> 'v outbox"
where
  "redo_action sock actionId uid srv =
     (case ensureRoom srv (roomId sock) of
        (srv1, None) \<Rightarrow> (srv1, [])
      | (srv1, Some Inherited) \<Rightarrow> raise_TypeError srv1
      | (srv1, Some (Room room)) \<Rightarrow>
          (let idx = findIndex (\<lambda>a. act_id a = actionId) (actions room)
           in if idx = - 1 then (srv1, [])
              else (let action = actions room ! nat idx
                    in if act_userId action \<noteq> uid
                       then (srv1, [(ToSocket (sock_id sock), RedoDenied actionId ''not-owner'')])
                       else (put_room srv1 (room_key (roomId sock))
                               (room\<lparr>actions :=
                                  (actions room)[nat idx := action\<lparr>act_undone := Some False\<rparr>]\<rparr>),
                             [(ToRoom (roomId sock), ActionRedone actionId uid)]))))"

text \<open>\<^verbatim>\<open>disconnect\<close> (lines 106-122). When the event fires the transport has already
  taken the socket out of its rooms; the model drops it from \<open>sockets\<close>. The handler reads
  \<^verbatim>\<open>rooms[roomId]\<close> itself; on an inherited value \<^verbatim>\<open>room.clients.delete\<close> throws.\<close>

definition disconnect :: "socket \<Rightarrow> 'v server \<Rightarrow> 'v server \<times> 'v outbox" where
  "disconnect sock srv =
     (let srv0 = srv\<lparr>sockets := (sockets srv)(sock_id sock := None)\<rparr>
      in if \<not> truthy (roomId sock) then (srv0, [])
         else (case rooms_get srv0 (room_key (roomId sock)) of
                 None \<Rightarrow> (srv0, [])
               | Some Inherited \<Rightarrow> raise_TypeError srv0
               | Some (Room room) \<Rightarrow>
                   (let room1 = room\<lparr>clients := clients room - {sock_id sock}\<rparr>
                    in if Map_has (users room1) (sock_id sock)
                       then (case Map_get (users room1) (sock_id sock) of
                               None \<Rightarrow> (put_room srv0 (room_key (roomId sock)) room1, [])
                             | Some u \<Rightarrow>
                                 (put_room srv0 (room_key (roomId sock))
                                    (room1\<lparr>users := Map_delete (users room1) (sock_id sock)\<rparr>),
                                  [(ToOthers (roomId sock) (sock_id sock), UserLeft u)]))
                       else (put_room srv0 (room_key (roomId sock)) room1, []))))"

subsection \<open>Runs of the server\<close>

text \<open>What a connection can do. \<open>JoinRoom\<close> carries, besides the two fields of the
  message, the value \<^verbatim>\<open>uuidv4()\<close> returns if the handler calls it.\<close>

datatype 'v intent =
  Connect
  | JoinRoom "string option" "string option" string
  | AddAction "'v action"
  | UpdateAction "string option" "(string \<rightharpoonup> 'v) option" bool "string option"
  | UndoAction "string option" "string option"
  | RedoAction "string option" "string option"
  | Disconnect


text \<open>One event of the event loop: the socket it arrives on and what it is. Handlers
  exist only on connected sockets, and a socket id is not handed out twice. After an
  uncaught exception no event is handled.\<close>

definition step :: "'v server \<Rightarrow> string \<times> 'v intent \<Rightarrow> 'v server \<times> 'v outbox" where
  "step srv ev =
     (if uncaught srv \<noteq> None then (srv, [])
      else case sockets srv (fst ev) of
        None \<Rightarrow> (case snd ev of Connect \<Rightarrow> (connect (fst ev) srv, []) | _ \<Rightarrow> (srv, []))
      | Some sock \<Rightarrow>
          (case snd ev of
             Connect \<Rightarrow> (srv, [])
           | JoinRoom rid uid uuid \<Rightarrow> join_room uuid sock rid uid srv
           | AddAction a \<Rightarrow> add_action sock a srv
           | UpdateAction aid dat replace uid \<Rightarrow> update_action sock aid dat replace uid srv
           | UndoAction aid uid \<Rightarrow> undo_action sock aid uid srv
           | RedoAction aid uid \<Rightarrow> redo_action sock aid uid srv
           | Disconnect \<Rightarrow> disconnect sock srv))"

fun run :: "'v server \<Rightarrow> (string \<times> 'v intent) list \<Rightarrow> 'v server" where
  "run srv [] = srv"
| "run srv (ev # evs) = run (fst (step srv ev)) evs"

subsection \<open>Delivery\<close>



subsection \<open>Comparing logs\<close>

text \<open>An entry without the two fields that the handlers write.\<close>

definition fixed_part :: "'v action \<Rightarrow> 'v action" where
  "fixed_part a = a\<lparr>act_data := None, act_undone := None\<rparr>"

subsection \<open>Sockets of a running server\<close>


subsection \<open>A small room\<close>

text \<open>Three sockets connect; \<open>s1\<close> and \<open>s2\<close> join room \<open>r\<close> as users \<open>A\<close> and \<open>B\<close>, \<open>s3\<close> never
  joins (\<open>demo_joined\<close>); then \<open>s1\<close> sends an action (\<open>demo_server\<close>). \<open>demo_run\<close> is a short
  continuation. \<open>demo_start\<close> has \<open>s3\<close> alone, and \<open>demo_phantom\<close> is that server after \<open>s3\<close>
  has sent the action.\<close>

definition demo_action :: "nat action" where
  "demo_action =
     \<lparr>act_id = Some ''a1'', act_userId = Some ''A'', act_data = Some [''x'' \<mapsto> 1, ''y'' \<mapsto> 2],
      act_undone = Some False, act_rest = [''type'' \<mapsto> 0]\<rparr>"

definition demo_sockA :: socket where
  "demo_sockA = \<lparr>sock_id = ''s1'', roomId = Some ''r'', userId = Some ''A'', joined = {''r'', ''s1''}\<rparr>"

definition demo_sockB :: socket where
  "demo_sockB = \<lparr>sock_id = ''s2'', roomId = Some ''r'', userId = Some ''B'', joined = {''r'', ''s2''}\<rparr>"

definition demo_sockC :: socket where
  "demo_sockC = \<lparr>sock_id = ''s3'', roomId = None, userId = None, joined = {''s3''}\<rparr>"



definition demo_room :: "nat room" where
  "demo_room =
     \<lparr>actions = [demo_action], clients = {''s2'', ''s1''}, users = [(''s1'', ''A''), (''s2'', ''B'')]\<rparr>"

definition demo_server :: "nat server" where
  "demo_server =
     \<lparr>rooms = [''r'' \<mapsto> demo_room],
      sockets = [''s1'' \<mapsto> demo_sockA, ''s2'' \<mapsto> demo_sockB, ''s3'' \<mapsto> demo_sockC],
      uncaught = None\<rparr>"

definition demo_start :: "nat server" where
  "demo_start = \<lparr>rooms = Map.empty, sockets = [''s3'' \<mapsto> demo_sockC], uncaught = None\<rparr>"

definition demo_run :: "(string \<times> nat intent) list" where
  "demo_run =
     [(''s1'', UndoAction (Some ''a1'') (Some ''A'')),
      (''s2'', AddAction demo_action),
      (''s1'', Disconnect)]"

definition demo_phantom :: "nat server" where
  "demo_phantom =
     \<lparr>rooms = [''undefined'' \<mapsto> \<lparr>actions = [demo_action], clients = {}, users = []\<rparr>],
      sockets = [''s3'' \<mapsto> demo_sockC], uncaught = None\<rparr>"

section \<open>Properties\<close>

subsection \<open>\<^verbatim>\<open>findIndex\<close>\<close>


lemma findIndex_from_none:
  "0 \<le> i \<Longrightarrow> (findIndex_from P xs i = - 1) = (\<forall>x \<in> set xs. \<not> P x)"
proof (induction xs arbitrary: i)
  case Nil
  then show ?case by simp
next
  case (Cons x xs)
  then show ?case by auto
qed


lemma findIndex_none: "(findIndex P xs = - 1) = (\<forall>x \<in> set xs. \<not> P x)"
  by (simp add: findIndex_def findIndex_from_none)




subsection \<open>The registry\<close>

lemma usable_iff: "usable srv k = (rooms srv k \<noteq> None \<or> k \<notin> set inherited_keys)"
  by (cases "rooms srv k") (simp_all add: usable_def rooms_get_def)

lemma present_usable: "rooms srv k \<noteq> None \<Longrightarrow> usable srv k"
  by (simp add: usable_iff)

lemma undefined_usable: "usable srv ''undefined''"
  by (simp add: usable_iff inherited_keys_def)

lemma rooms_get_usable:
  "usable srv k \<Longrightarrow> rooms_get srv k = (case rooms srv k of None \<Rightarrow> None | Some r \<Rightarrow> Some (Room r))"
  by (cases "rooms srv k") (simp_all add: usable_iff rooms_get_def)

lemma rooms_get_inherited: "\<not> usable srv k \<Longrightarrow> rooms_get srv k = Some Inherited"
  by (simp add: usable_def)

lemma ensureRoom_eq:
  "usable srv (room_key rid) \<Longrightarrow>
   ensureRoom srv rid =
     (if rooms srv (room_key rid) = None then put_room srv (room_key rid) empty_room else srv,
      Some (Room (room_at srv (room_key rid))))"
  by (cases "rooms srv (room_key rid)")
    (auto simp: ensureRoom_def usable_iff put_room_def room_at_def Let_def rooms_get_def)

lemma ensureRoom_inherited:
  "\<not> usable srv (room_key rid) \<Longrightarrow> ensureRoom srv rid = (srv, Some Inherited)"
  by (simp add: ensureRoom_def rooms_get_inherited Let_def)

lemma put_room_twice: "put_room (put_room srv k r) k r' = put_room srv k r'"
  by (simp add: put_room_def)

lemma rooms_put_room: "rooms (put_room srv k r) = (rooms srv)(k \<mapsto> r)"
  by (simp add: put_room_def)

lemma sockets_put_room: "sockets (put_room srv k r) = sockets srv"
  by (simp add: put_room_def)

lemma uncaught_put_room: "uncaught (put_room srv k r) = uncaught srv"
  by (simp add: put_room_def)

lemma room_at_put_room: "room_at (put_room srv k r) k' = (if k' = k then r else room_at srv k')"
  by (simp add: put_room_def room_at_def)

lemma room_at_sockets_update: "room_at (srv\<lparr>sockets := f\<rparr>) k = room_at srv k"
  by (simp add: room_at_def)

lemma room_at_uncaught_update: "room_at (srv\<lparr>uncaught := e\<rparr>) k = room_at srv k"
  by (simp add: room_at_def)

lemma room_at_put_empty:
  "rooms srv k = None \<Longrightarrow> room_at (put_room srv k empty_room) k' = room_at srv k'"
  by (simp add: put_room_def room_at_def)

lemma room_at_ensureRoom: "room_at (fst (ensureRoom srv rid)) k = room_at srv k"
  by (cases "usable srv (room_key rid)")
    (simp_all add: ensureRoom_eq ensureRoom_inherited room_at_put_empty)

lemma sockets_ensureRoom: "sockets (fst (ensureRoom srv rid)) = sockets srv"
  by (cases "usable srv (room_key rid)")
    (simp_all add: ensureRoom_eq ensureRoom_inherited sockets_put_room)

lemma uncaught_ensureRoom: "uncaught (fst (ensureRoom srv rid)) = uncaught srv"
  by (cases "usable srv (room_key rid)")
    (simp_all add: ensureRoom_eq ensureRoom_inherited uncaught_put_room)

lemma ensureRoom_present: "rooms srv (room_key rid) \<noteq> None \<Longrightarrow> fst (ensureRoom srv rid) = srv"
  by (auto simp: ensureRoom_eq present_usable)

lemma nonempty_log_present: "actions (room_at srv k) \<noteq> [] \<Longrightarrow> rooms srv k \<noteq> None"
  by (cases "rooms srv k") (auto simp: room_at_def empty_room_def)

lemma found_present:
  "findIndex P (actions (room_at srv k)) \<noteq> - 1 \<Longrightarrow> rooms srv k \<noteq> None"
  by (rule nonempty_log_present) (auto simp: findIndex_def)

lemma found_usable:
  "findIndex P (actions (room_at srv k)) \<noteq> - 1 \<Longrightarrow> usable srv k"
  by (rule present_usable) (rule found_present)

subsection \<open>The handlers on the room of the socket\<close>

lemma add_action_eq:
  "usable srv (room_key (roomId sock)) \<Longrightarrow>
   add_action sock a srv =
     (put_room srv (room_key (roomId sock))
        ((room_at srv (room_key (roomId sock)))
           \<lparr>actions := actions (room_at srv (room_key (roomId sock))) @ [a]\<rparr>),
      [(ToOthers (roomId sock) (sock_id sock), ActionAdded a)])"
  by (simp add: add_action_def ensureRoom_eq put_room_twice)

lemma add_action_thrown:
  "\<not> usable srv (room_key (roomId sock)) \<Longrightarrow> add_action sock a srv = raise_TypeError srv"
  by (simp add: add_action_def ensureRoom_inherited)

lemma update_action_thrown:
  "\<not> usable srv (room_key (roomId sock)) \<Longrightarrow>
   update_action sock aid dat replace uid srv = raise_TypeError srv"
  by (simp add: update_action_def ensureRoom_inherited)

lemma undo_action_thrown:
  "\<not> usable srv (room_key (roomId sock)) \<Longrightarrow> undo_action sock aid uid srv = raise_TypeError srv"
  by (simp add: undo_action_def ensureRoom_inherited)

lemma redo_action_thrown:
  "\<not> usable srv (room_key (roomId sock)) \<Longrightarrow> redo_action sock aid uid srv = raise_TypeError srv"
  by (simp add: redo_action_def ensureRoom_inherited)

lemma update_action_miss:
  "usable srv (room_key (roomId sock)) \<Longrightarrow>
   findIndex (\<lambda>a. act_id a = aid) (actions (room_at srv (room_key (roomId sock)))) = - 1 \<Longrightarrow>
   update_action sock aid dat replace uid srv = (fst (ensureRoom srv (roomId sock)), [])"
  by (simp add: update_action_def ensureRoom_eq)

lemma undo_action_miss:
  "usable srv (room_key (roomId sock)) \<Longrightarrow>
   findIndex (\<lambda>a. act_id a = aid) (actions (room_at srv (room_key (roomId sock)))) = - 1 \<Longrightarrow>
   undo_action sock aid uid srv = (fst (ensureRoom srv (roomId sock)), [])"
  by (simp add: undo_action_def ensureRoom_eq)

lemma redo_action_miss:
  "usable srv (room_key (roomId sock)) \<Longrightarrow>
   findIndex (\<lambda>a. act_id a = aid) (actions (room_at srv (room_key (roomId sock)))) = - 1 \<Longrightarrow>
   redo_action sock aid uid srv = (fst (ensureRoom srv (roomId sock)), [])"
  by (simp add: redo_action_def ensureRoom_eq)

lemma update_action_denied:
  "findIndex (\<lambda>a. act_id a = aid) (actions (room_at srv (room_key (roomId sock)))) \<noteq> - 1 \<Longrightarrow>
   act_userId (actions (room_at srv (room_key (roomId sock))) !
      nat (findIndex (\<lambda>a. act_id a = aid) (actions (room_at srv (room_key (roomId sock)))))) \<noteq> uid \<Longrightarrow>
   update_action sock aid dat replace uid srv =
     (srv, [(ToSocket (sock_id sock), UpdateDenied aid ''not-owner'')])"
  using found_present [of "\<lambda>a. act_id a = aid" srv "room_key (roomId sock)"]
  by (auto simp: update_action_def ensureRoom_eq present_usable Let_def)

lemma undo_action_denied:
  "findIndex (\<lambda>a. act_id a = aid) (actions (room_at srv (room_key (roomId sock)))) \<noteq> - 1 \<Longrightarrow>
   act_userId (actions (room_at srv (room_key (roomId sock))) !
      nat (findIndex (\<lambda>a. act_id a = aid) (actions (room_at srv (room_key (roomId sock)))))) \<noteq> uid \<Longrightarrow>
   undo_action sock aid uid srv =
     (srv, [(ToSocket (sock_id sock), UndoDenied aid ''not-owner'')])"
  using found_present [of "\<lambda>a. act_id a = aid" srv "room_key (roomId sock)"]
  by (auto simp: undo_action_def ensureRoom_eq present_usable Let_def)

lemma redo_action_denied:
  "findIndex (\<lambda>a. act_id a = aid) (actions (room_at srv (room_key (roomId sock)))) \<noteq> - 1 \<Longrightarrow>
   act_userId (actions (room_at srv (room_key (roomId sock))) !
      nat (findIndex (\<lambda>a. act_id a = aid) (actions (room_at srv (room_key (roomId sock)))))) \<noteq> uid \<Longrightarrow>
   redo_action sock aid uid srv =
     (srv, [(ToSocket (sock_id sock), RedoDenied aid ''not-owner'')])"
  using found_present [of "\<lambda>a. act_id a = aid" srv "room_key (roomId sock)"]
  by (auto simp: redo_action_def ensureRoom_eq present_usable Let_def)

lemma update_action_ok:
  "findIndex (\<lambda>a. act_id a = aid) (actions (room_at srv (room_key (roomId sock)))) \<noteq> - 1 \<Longrightarrow>
   act_userId (actions (room_at srv (room_key (roomId sock))) !
      nat (findIndex (\<lambda>a. act_id a = aid) (actions (room_at srv (room_key (roomId sock)))))) = uid \<Longrightarrow>
   update_action sock aid dat replace uid srv =
     (let k = room_key (roomId sock); room = room_at srv k;
          idx = nat (findIndex (\<lambda>a. act_id a = aid) (actions room));
          action = actions room ! idx;
          action' = action\<lparr>act_data := (if replace then dat
                                          else Some (spread (act_data action) ++ spread dat))\<rparr>
      in (put_room srv k (room\<lparr>actions := (actions room)[idx := action']\<rparr>),
          [(ToRoom (roomId sock), ActionUpdated aid (act_data action'))]))"
  using found_usable [of "\<lambda>a. act_id a = aid" srv "room_key (roomId sock)"]
  by (simp add: update_action_def ensureRoom_eq Let_def put_room_twice)

lemma undo_action_ok:
  "findIndex (\<lambda>a. act_id a = aid) (actions (room_at srv (room_key (roomId sock)))) \<noteq> - 1 \<Longrightarrow>
   act_userId (actions (room_at srv (room_key (roomId sock))) !
      nat (findIndex (\<lambda>a. act_id a = aid) (actions (room_at srv (room_key (roomId sock)))))) = uid \<Longrightarrow>
   undo_action sock aid uid srv =
     (let k = room_key (roomId sock); room = room_at srv k;
          idx = nat (findIndex (\<lambda>a. act_id a = aid) (actions room))
      in (put_room srv k
            (room\<lparr>actions := (actions room)[idx := (actions room ! idx)\<lparr>act_undone := Some True\<rparr>]\<rparr>),
          [(ToRoom (roomId sock), ActionUndone aid uid)]))"
  using found_usable [of "\<lambda>a. act_id a = aid" srv "room_key (roomId sock)"]
  by (simp add: undo_action_def ensureRoom_eq Let_def put_room_twice)

lemma redo_action_ok:
  "findIndex (\<lambda>a. act_id a = aid) (actions (room_at srv (room_key (roomId sock)))) \<noteq> - 1 \<Longrightarrow>
   act_userId (actions (room_at srv (room_key (roomId sock))) !
      nat (findIndex (\<lambda>a. act_id a = aid) (actions (room_at srv (room_key (roomId sock)))))) = uid \<Longrightarrow>
   redo_action sock aid uid srv =
     (let k = room_key (roomId sock); room = room_at srv k;
          idx = nat (findIndex (\<lambda>a. act_id a = aid) (actions room))
      in (put_room srv k
            (room\<lparr>actions := (actions room)[idx := (actions room ! idx)\<lparr>act_undone := Some False\<rparr>]\<rparr>),
          [(ToRoom (roomId sock), ActionRedone aid uid)]))"
  using found_usable [of "\<lambda>a. act_id a = aid" srv "room_key (roomId sock)"]
  by (simp add: redo_action_def ensureRoom_eq Let_def put_room_twice)

lemma update_action_found:
  assumes "k = room_key (roomId sock)" and "room = room_at srv k"
    and "idx = findIndex (\<lambda>a. act_id a = aid) (actions room)" and "idx \<noteq> - 1"
    and "action = actions room ! nat idx"
  shows "update_action sock aid dat replace uid srv =
           (if uid = act_userId action
            then (put_room srv k (room\<lparr>actions := (actions room)[nat idx :=
                      action\<lparr>act_data := (if replace then dat
                                            else Some (spread (act_data action) ++ spread dat))\<rparr>]\<rparr>),
                  [(ToRoom (roomId sock),
                    ActionUpdated aid (if replace then dat
                                       else Some (spread (act_data action) ++ spread dat)))])
            else (srv, [(ToSocket (sock_id sock), UpdateDenied aid ''not-owner'')]))"
proof -
  have f: "findIndex (\<lambda>a. act_id a = aid) (actions (room_at srv (room_key (roomId sock)))) \<noteq> - 1"
    using assms by simp
  show ?thesis
  proof (cases "uid = act_userId action")
    case True
    then show ?thesis
      using update_action_ok [OF f, of uid dat replace] assms by (simp add: Let_def)
  next
    case False
    then show ?thesis
      using update_action_denied [OF f, of uid dat replace] assms by auto
  qed
qed

lemma undo_action_found:
  assumes "k = room_key (roomId sock)" and "room = room_at srv k"
    and "idx = findIndex (\<lambda>a. act_id a = aid) (actions room)" and "idx \<noteq> - 1"
    and "action = actions room ! nat idx"
  shows "undo_action sock aid uid srv =
           (if uid = act_userId action
            then (put_room srv k (room\<lparr>actions := (actions room)[nat idx :=
                      action\<lparr>act_undone := Some True\<rparr>]\<rparr>),
                  [(ToRoom (roomId sock), ActionUndone aid uid)])
            else (srv, [(ToSocket (sock_id sock), UndoDenied aid ''not-owner'')]))"
proof -
  have f: "findIndex (\<lambda>a. act_id a = aid) (actions (room_at srv (room_key (roomId sock)))) \<noteq> - 1"
    using assms by simp
  show ?thesis
  proof (cases "uid = act_userId action")
    case True
    then show ?thesis
      using undo_action_ok [OF f, of uid] assms by (simp add: Let_def)
  next
    case False
    then show ?thesis
      using undo_action_denied [OF f, of uid] assms by auto
  qed
qed

lemma redo_action_found:
  assumes "k = room_key (roomId sock)" and "room = room_at srv k"
    and "idx = findIndex (\<lambda>a. act_id a = aid) (actions room)" and "idx \<noteq> - 1"
    and "action = actions room ! nat idx"
  shows "redo_action sock aid uid srv =
           (if uid = act_userId action
            then (put_room srv k (room\<lparr>actions := (actions room)[nat idx :=
                      action\<lparr>act_undone := Some False\<rparr>]\<rparr>),
                  [(ToRoom (roomId sock), ActionRedone aid uid)])
            else (srv, [(ToSocket (sock_id sock), RedoDenied aid ''not-owner'')]))"
proof -
  have f: "findIndex (\<lambda>a. act_id a = aid) (actions (room_at srv (room_key (roomId sock)))) \<noteq> - 1"
    using assms by simp
  show ?thesis
  proof (cases "uid = act_userId action")
    case True
    then show ?thesis
      using redo_action_ok [OF f, of uid] assms by (simp add: Let_def)
  next
    case False
    then show ?thesis
      using redo_action_denied [OF f, of uid] assms by auto
  qed
qed


subsection \<open>The small room\<close>

lemma demo_lookup:
  "room_at demo_server ''r'' = demo_room"
  "findIndex (\<lambda>a. act_id a = Some ''a1'') (actions demo_room) = 0"
  "actions demo_room ! 0 = demo_action"
  by (simp_all add: room_at_def demo_server_def demo_room_def findIndex_def demo_action_def)



subsection \<open>The ownership gate\<close>



subsection \<open>Unknown actions\<close>

lemma miss_outcome:
  assumes "h = (fst (ensureRoom srv rid), [])"
  shows "snd h = [] \<and> sockets (fst h) = sockets srv \<and>
         (\<forall>k'. room_at (fst h) k' = room_at srv k') \<and>
         (rooms srv (room_key rid) \<noteq> None \<longrightarrow> fst h = srv) \<and>
         uncaught (fst h) = uncaught srv"
  using assms
  by (simp add: sockets_ensureRoom room_at_ensureRoom ensureRoom_present uncaught_ensureRoom)

lemma thrown_outcome:
  assumes "h = raise_TypeError srv" and "\<not> usable srv k"
  shows "snd h = [] \<and> sockets (fst h) = sockets srv \<and>
         (\<forall>k'. room_at (fst h) k' = room_at srv k') \<and>
         (rooms srv k \<noteq> None \<longrightarrow> fst h = srv) \<and>
         uncaught (fst h) = Some TypeError"
  using assms by (auto simp: raise_TypeError_def room_at_uncaught_update usable_iff)

text \<open>
  Claim C7. When no entry of the log of the socket's room has the \<^verbatim>\<open>actionId\<close> of the message,
  an update, undo or redo emits no message at all, leaves every socket as it was and leaves
  every room with the state it had. If the room is in the registry the whole server state is
  returned as it was; otherwise the only effect is that \<^verbatim>\<open>ensureRoom\<close> has stored the empty
  room it hands out. No exception is raised, unless the socket's \<^verbatim>\<open>roomId\<close> names an inherited
  property under which no room is stored, where \<^verbatim>\<open>findIndex\<close> is called on \<^verbatim>\<open>undefined\<close>.
\<close>

theorem unknown_action_silent:
  assumes "k = room_key (roomId sock)"
    and "\<forall>a \<in> set (actions (room_at srv k)). act_id a \<noteq> aid"
  shows "\<forall>h \<in> {update_action sock aid dat replace uid srv,
                undo_action sock aid uid srv,
                redo_action sock aid uid srv}.
           snd h = [] \<and> sockets (fst h) = sockets srv \<and>
           (\<forall>k'. room_at (fst h) k' = room_at srv k') \<and>
           (rooms srv k \<noteq> None \<longrightarrow> fst h = srv) \<and>
           uncaught (fst h) = (if usable srv k then uncaught srv else Some TypeError)"
proof (cases "usable srv k")
  case True
  then have u: "usable srv (room_key (roomId sock))"
    by (simp add: assms(1))
  have miss: "findIndex (\<lambda>a. act_id a = aid) (actions (room_at srv (room_key (roomId sock)))) = - 1"
    using assms by (simp add: findIndex_none)
  show ?thesis
    using miss_outcome [OF update_action_miss [OF u miss, of dat replace uid]]
      miss_outcome [OF undo_action_miss [OF u miss, of uid]]
      miss_outcome [OF redo_action_miss [OF u miss, of uid]] True
    unfolding assms(1) by auto
next
  case False
  then have u: "\<not> usable srv (room_key (roomId sock))"
    by (simp add: assms(1))
  show ?thesis
    using thrown_outcome [OF update_action_thrown [OF u, of aid dat replace uid] False]
      thrown_outcome [OF undo_action_thrown [OF u, of aid uid] False]
      thrown_outcome [OF redo_action_thrown [OF u, of aid uid] False] False
    by auto
qed

theorem unknown_action_silent_witness:
  "update_action demo_sockA (Some ''zz'') (Some [''x'' \<mapsto> 7]) False (Some ''A'') demo_server
     = (demo_server, []) \<and>
   undo_action demo_sockA (Some ''zz'') (Some ''A'') demo_server = (demo_server, []) \<and>
   redo_action demo_sockA (Some ''zz'') (Some ''A'') demo_server = (demo_server, [])"
proof -
  have k: "''r'' = room_key (roomId demo_sockA)"
    by (simp add: demo_sockA_def)
  have absent: "\<forall>a \<in> set (actions (room_at demo_server ''r'')). act_id a \<noteq> Some ''zz''"
    by (simp add: demo_lookup demo_room_def demo_action_def)
  have present: "rooms demo_server ''r'' \<noteq> None"
    by (simp add: demo_server_def)
  show ?thesis
    using unknown_action_silent [OF k absent, of "Some [''x'' \<mapsto> 7]" False "Some ''A''"] present
    by (simp add: prod_eq_iff)
qed

subsection \<open>Undo and redo\<close>






subsection \<open>The payload of an update\<close>



subsection \<open>Sockets that never joined\<close>

lemma ensureRoom_returns: "\<exists>r. snd (ensureRoom srv rid) = Some r"
  by (cases "usable srv (room_key rid)") (simp_all add: ensureRoom_eq ensureRoom_inherited)

lemma rooms_ensureRoom:
  "usable srv (room_key rid) \<Longrightarrow>
   rooms (fst (ensureRoom srv rid)) (room_key rid) = Some (room_at srv (room_key rid))"
  by (cases "rooms srv (room_key rid)") (simp_all add: ensureRoom_eq rooms_put_room room_at_def)

text \<open>
  Claim C10. A socket that never joined has no \<^verbatim>\<open>roomId\<close>. Its \<^verbatim>\<open>add-action\<close>,
  \<^verbatim>\<open>update-action\<close>, \<^verbatim>\<open>undo-action\<close> and \<^verbatim>\<open>redo-action\<close> are not rejected: \<^verbatim>\<open>ensureRoom\<close> is called
  with \<^verbatim>\<open>undefined\<close>, always returns a room (so the guard \<^verbatim>\<open>if (!room) return\<close> never fires)
  and leaves a room stored under the key \<^verbatim>\<open>undefined\<close>; the action is appended to the log of
  that room, and an update, undo or redo of an action found there with the matching
  \<^verbatim>\<open>userId\<close> changes the entry in that log.
\<close>

theorem unjoined_socket_uses_undefined_room:
  assumes "roomId sock = None" and "room = room_at srv ''undefined''"
    and "idx = findIndex (\<lambda>a. act_id a = aid) (actions room)"
    and "action = actions room ! nat idx"
  shows "(\<forall>rid. \<exists>r. snd (ensureRoom srv rid) = Some r) \<and>
         rooms (fst (ensureRoom srv (roomId sock))) ''undefined'' = Some room \<and>
         add_action sock a srv =
           (put_room srv ''undefined'' (room\<lparr>actions := actions room @ [a]\<rparr>),
            [(ToOthers None (sock_id sock), ActionAdded a)]) \<and>
         (\<forall>h \<in> {add_action sock a srv, update_action sock aid dat replace uid srv,
                  undo_action sock aid uid srv, redo_action sock aid uid srv}.
            rooms (fst h) ''undefined'' \<noteq> None) \<and>
         (idx \<noteq> - 1 \<and> act_userId action = uid \<longrightarrow>
            fst (update_action sock aid dat replace uid srv) =
              put_room srv ''undefined'' (room\<lparr>actions := (actions room)[nat idx :=
                action\<lparr>act_data := (if replace then dat
                                      else Some (spread (act_data action) ++ spread dat))\<rparr>]\<rparr>) \<and>
            fst (undo_action sock aid uid srv) =
              put_room srv ''undefined'' (room\<lparr>actions := (actions room)[nat idx :=
                action\<lparr>act_undone := Some True\<rparr>]\<rparr>) \<and>
            fst (redo_action sock aid uid srv) =
              put_room srv ''undefined'' (room\<lparr>actions := (actions room)[nat idx :=
                action\<lparr>act_undone := Some False\<rparr>]\<rparr>))"
proof -
  have k: "''undefined'' = room_key (roomId sock)"
    using assms(1) by simp
  have u: "usable srv (room_key (roomId sock))"
    using undefined_usable [of srv] assms(1) by simp
  have guard: "\<forall>rid. \<exists>r. snd (ensureRoom srv rid) = Some r"
    by (simp add: ensureRoom_returns)
  have created: "rooms (fst (ensureRoom srv (roomId sock))) ''undefined'' = Some room"
    using rooms_ensureRoom [OF u] assms(1,2) by simp
  have add: "add_action sock a srv =
           (put_room srv ''undefined'' (room\<lparr>actions := actions room @ [a]\<rparr>),
            [(ToOthers None (sock_id sock), ActionAdded a)])"
    using assms(1,2) by (simp add: add_action_eq [OF u])
  have hit: "idx \<noteq> - 1 \<Longrightarrow> act_userId action = uid \<Longrightarrow>
            fst (update_action sock aid dat replace uid srv) =
              put_room srv ''undefined'' (room\<lparr>actions := (actions room)[nat idx :=
                action\<lparr>act_data := (if replace then dat
                                      else Some (spread (act_data action) ++ spread dat))\<rparr>]\<rparr>) \<and>
            fst (undo_action sock aid uid srv) =
              put_room srv ''undefined'' (room\<lparr>actions := (actions room)[nat idx :=
                action\<lparr>act_undone := Some True\<rparr>]\<rparr>) \<and>
            fst (redo_action sock aid uid srv) =
              put_room srv ''undefined'' (room\<lparr>actions := (actions room)[nat idx :=
                action\<lparr>act_undone := Some False\<rparr>]\<rparr>)"
    using update_action_found [OF k assms(2,3) _ assms(4), of dat replace uid]
      undo_action_found [OF k assms(2,3) _ assms(4), of uid]
      redo_action_found [OF k assms(2,3) _ assms(4), of uid]
    by simp
  have stored: "rooms (fst h) ''undefined'' \<noteq> None"
    if "h \<in> {add_action sock a srv, update_action sock aid dat replace uid srv,
              undo_action sock aid uid srv, redo_action sock aid uid srv}" for h
  proof (cases "idx = - 1")
    case True
    then have miss: "findIndex (\<lambda>a. act_id a = aid)
        (actions (room_at srv (room_key (roomId sock)))) = - 1"
      using assms(1-3) by simp
    show ?thesis
      using that add created update_action_miss [OF u miss, of dat replace uid]
        undo_action_miss [OF u miss, of uid] redo_action_miss [OF u miss, of uid]
      by (auto simp: rooms_put_room)
  next
    case False
    show ?thesis
      using that add update_action_found [OF k assms(2,3) False assms(4), of dat replace uid]
        undo_action_found [OF k assms(2,3) False assms(4), of uid]
        redo_action_found [OF k assms(2,3) False assms(4), of uid]
        found_present [of "\<lambda>a. act_id a = aid" srv "''undefined''"] False assms(2,3)
      by (auto simp: rooms_put_room split: if_splits)
  qed
  show ?thesis
    using guard created add hit stored by blast
qed

theorem unjoined_socket_uses_undefined_room_witness:
  "add_action demo_sockC demo_action demo_start =
     (demo_phantom, [(ToOthers None ''s3'', ActionAdded demo_action)]) \<and>
   rooms (fst (undo_action demo_sockC (Some ''a1'') (Some ''A'') demo_phantom)) ''undefined'' =
     Some \<lparr>actions = [demo_action\<lparr>act_undone := Some True\<rparr>], clients = {}, users = []\<rparr>"
proof -
  have none: "roomId demo_sockC = None" and sid: "sock_id demo_sockC = ''s3''"
    by (simp_all add: demo_sockC_def)
  have room0: "empty_room = room_at demo_start ''undefined''"
    by (simp add: room_at_def demo_start_def)
  have next_state: "put_room demo_start ''undefined''
      (empty_room\<lparr>actions := actions empty_room @ [demo_action]\<rparr>) = demo_phantom"
    by (simp add: put_room_def demo_start_def demo_phantom_def empty_room_def)
  have room1: "\<lparr>actions = [demo_action], clients = {}, users = []\<rparr> = room_at demo_phantom ''undefined''"
    by (simp add: room_at_def demo_phantom_def)
  have idx: "0 = findIndex (\<lambda>a. act_id a = Some ''a1'')
      (actions \<lparr>actions = [demo_action], clients = {}, users = []\<rparr>)"
    and action: "demo_action = actions \<lparr>actions = [demo_action], clients = {}, users = []\<rparr> ! nat 0"
    and owner: "(0::int) \<noteq> - 1 \<and> act_userId demo_action = Some ''A''"
    by (simp_all add: findIndex_def demo_action_def)
  have first: "add_action demo_sockC demo_action demo_start =
     (demo_phantom, [(ToOthers None ''s3'', ActionAdded demo_action)])"
    using unjoined_socket_uses_undefined_room [OF none room0 refl refl,
        where a = demo_action and aid = None and dat = None and replace = True and uid = None]
    by (simp add: sid next_state)
  have second: "fst (undo_action demo_sockC (Some ''a1'') (Some ''A'') demo_phantom) =
      put_room demo_phantom ''undefined''
        \<lparr>actions = [demo_action\<lparr>act_undone := Some True\<rparr>], clients = {}, users = []\<rparr>"
    using unjoined_socket_uses_undefined_room [OF none room1 idx action,
        where a = demo_action and dat = None and replace = True and uid = "Some ''A''"]
      owner
    by simp
  show ?thesis
    by (simp add: first second rooms_put_room)
qed

subsection \<open>Joining\<close>

lemma ensureRoom_sockets_update:
  "ensureRoom (srv\<lparr>sockets := f\<rparr>) rid =
     ((fst (ensureRoom srv rid))\<lparr>sockets := f\<rparr>, snd (ensureRoom srv rid))"
  by (simp add: ensureRoom_def Let_def rooms_get_def)

lemma put_room_sockets_update:
  "put_room (srv\<lparr>sockets := f\<rparr>) k r = (put_room srv k r)\<lparr>sockets := f\<rparr>"
  by (simp add: put_room_def)

lemma usable_sockets_update: "usable (srv\<lparr>sockets := f\<rparr>) k = usable srv k"
  by (simp add: usable_iff)

lemma join_room_thrown:
  assumes "rid = (case rid0 of None \<Rightarrow> uuid | Some r \<Rightarrow> if r = [] then uuid else r)"
    and "\<not> usable srv rid"
  shows "join_room uuid sock rid0 uid srv =
     raise_TypeError (srv\<lparr>sockets := (sockets srv)(sock_id sock \<mapsto>
        sock\<lparr>roomId := Some rid, userId := uid, joined := insert rid (joined sock)\<rparr>)\<rparr>)"
  unfolding join_room_def assms(1) [symmetric] Let_def
  using assms(2) by (simp add: ensureRoom_inherited usable_sockets_update)

lemma join_room_eq:
  assumes "rid = (case rid0 of None \<Rightarrow> uuid | Some r \<Rightarrow> if r = [] then uuid else r)"
    and "room = room_at srv rid" and "usable srv rid"
    and "us = (case uid of None \<Rightarrow> users room
               | Some u \<Rightarrow> if u = [] then users room else Map_set (users room) (sock_id sock) u)"
  shows "join_room uuid sock rid0 uid srv =
     ((put_room srv rid (room\<lparr>clients := insert (sock_id sock) (clients room), users := us\<rparr>))
        \<lparr>sockets := (sockets srv)(sock_id sock \<mapsto>
            sock\<lparr>roomId := Some rid, userId := uid, joined := insert rid (joined sock)\<rparr>)\<rparr>,
      [(ToSocket (sock_id sock), RoomState rid (actions room) (Map_values us)),
       (ToOthers (Some rid) (sock_id sock), UserJoined uid)])"
proof -
  have e: "ensureRoom srv (Some rid) =
      (if rooms srv rid = None then put_room srv rid empty_room else srv, Some (Room room))"
    using assms(2,3) by (simp add: ensureRoom_eq)
  show ?thesis
    unfolding join_room_def assms(1) [symmetric] Let_def ensureRoom_sockets_update e
    by (cases uid)
      (simp_all add: assms(4) put_room_sockets_update put_room_twice)
qed

lemma Map_get_in_values: "Map_get m k = Some v \<Longrightarrow> v \<in> set (Map_values m)"
  by (auto simp: Map_get_def Map_values_def dest: map_of_SomeD intro: rev_image_eqI)

lemma Map_get_Map_set: "Map_get (Map_set m k v) k = Some v"
  by (induction m) (auto simp: Map_get_def)

text \<open>
  Claim C9. A join whose \<^verbatim>\<open>roomId\<close> is falsy is not rejected. With \<open>uuid\<close> the value of
  \<^verbatim>\<open>uuidv4()\<close>, an identifier for which \<^verbatim>\<open>rooms[uuid]\<close> is \<^verbatim>\<open>undefined\<close>, the handler stores a
  room under \<open>uuid\<close> with an empty log, the socket as its only client and at most the socket's
  own identity in \<open>users\<close>; it sets the socket's \<^verbatim>\<open>roomId\<close> to \<open>uuid\<close> and puts the socket in the
  transport's room \<open>uuid\<close>; and the \<^verbatim>\<open>room-state\<close> message emitted on the socket carries
  \<open>uuid\<close> as its \<^verbatim>\<open>roomId\<close>.
\<close>

theorem join_without_room_id:
  assumes "\<not> truthy rid0" and "rooms_get srv uuid = None"
    and "us = (case uid of None \<Rightarrow> []
               | Some u \<Rightarrow> if u = [] then [] else [(sock_id sock, u)])"
  shows "join_room uuid sock rid0 uid srv =
     (srv\<lparr>rooms := (rooms srv)(uuid \<mapsto>
              \<lparr>actions = [], clients = {sock_id sock}, users = us\<rparr>),
          sockets := (sockets srv)(sock_id sock \<mapsto>
              sock\<lparr>roomId := Some uuid, userId := uid, joined := insert uuid (joined sock)\<rparr>)\<rparr>,
      [(ToSocket (sock_id sock), RoomState uuid [] (Map_values us)),
       (ToOthers (Some uuid) (sock_id sock), UserJoined uid)])"
proof -
  have rid: "uuid = (case rid0 of None \<Rightarrow> uuid | Some r \<Rightarrow> if r = [] then uuid else r)"
    using assms(1) by (cases rid0) simp_all
  have none: "rooms srv uuid = None" and u: "usable srv uuid"
    using assms(2) by (simp_all add: rooms_get_def usable_def split: option.splits)
  have room: "empty_room = room_at srv uuid"
    using none by (simp add: room_at_def)
  have us: "us = (case uid of None \<Rightarrow> users empty_room
               | Some u \<Rightarrow> if u = [] then users empty_room
                          else Map_set (users empty_room) (sock_id sock) u)"
    by (simp add: assms(3) empty_room_def split: option.splits)
  show ?thesis
    unfolding join_room_eq [OF rid room u us]
    using none by (simp add: put_room_def empty_room_def)
qed

theorem join_without_room_id_witness:
  "join_room ''u-1'' demo_sockC None (Some ''C'') demo_server =
     (demo_server\<lparr>rooms := (rooms demo_server)(''u-1'' \<mapsto>
              \<lparr>actions = [], clients = {''s3''}, users = [(''s3'', ''C'')]\<rparr>),
          sockets := (sockets demo_server)(''s3'' \<mapsto>
              demo_sockC\<lparr>roomId := Some ''u-1'', userId := Some ''C'',
                          joined := insert ''u-1'' (joined demo_sockC)\<rparr>)\<rparr>,
      [(ToSocket ''s3'', RoomState ''u-1'' [] [''C'']),
       (ToOthers (Some ''u-1'') ''s3'', UserJoined (Some ''C''))])"
proof -
  have falsy: "\<not> truthy None" by simp
  have fresh: "rooms_get demo_server ''u-1'' = None"
    by (simp add: rooms_get_def demo_server_def inherited_keys_def)
  have us: "[(''s3'', ''C'')] = (case Some ''C'' of None \<Rightarrow> []
               | Some u \<Rightarrow> if u = [] then [] else [(sock_id demo_sockC, u)])"
    by (simp add: demo_sockC_def)
  have sid: "sock_id demo_sockC = ''s3''"
    by (simp add: demo_sockC_def)
  show ?thesis
    using join_without_room_id [OF falsy fresh us] by (simp add: sid Map_values_def)
qed

text \<open>
  Claim C2, as the handler has it. For a join to a room id that names no inherited
  property, the \<^verbatim>\<open>room-state\<close> message is emitted on the joining socket and carries the
  whole log of the room, entries with \<^verbatim>\<open>undone = true\<close> included, and the values of \<open>users\<close>
  after the join: one identity for every entry of \<open>users\<close>, in the order of registration and
  with no de-duplication, so an identity that two sockets registered appears twice. The
  joiner's own identity is among them when it is truthy; a falsy one is not registered.
\<close>

theorem join_snapshot:
  assumes "rid = (case rid0 of None \<Rightarrow> uuid | Some r \<Rightarrow> if r = [] then uuid else r)"
    and "rid \<notin> set inherited_keys"
    and "srv' = fst (join_room uuid sock rid0 uid srv)"
    and "ps = Map_values (users (room_at srv' rid))"
  shows "snd (join_room uuid sock rid0 uid srv) =
           [(ToSocket (sock_id sock), RoomState rid (actions (room_at srv rid)) ps),
            (ToOthers (Some rid) (sock_id sock), UserJoined uid)] \<and>
         actions (room_at srv' rid) = actions (room_at srv rid) \<and>
         users (room_at srv' rid) =
           (case uid of None \<Rightarrow> users (room_at srv rid)
            | Some u \<Rightarrow> if u = [] then users (room_at srv rid)
                       else Map_set (users (room_at srv rid)) (sock_id sock) u) \<and>
         length ps = length (users (room_at srv' rid)) \<and>
         (\<forall>s u. Map_get (users (room_at srv' rid)) s = Some u \<longrightarrow> u \<in> set ps) \<and>
         (\<forall>u. uid = Some u \<and> u \<noteq> [] \<longrightarrow> u \<in> set ps) \<and>
         (uid = None \<or> uid = Some [] \<longrightarrow> ps = Map_values (users (room_at srv rid)))"
proof -
  define us where "us = (case uid of None \<Rightarrow> users (room_at srv rid)
               | Some u \<Rightarrow> if u = [] then users (room_at srv rid)
                          else Map_set (users (room_at srv rid)) (sock_id sock) u)"
  have u: "usable srv rid"
    using assms(2) by (simp add: usable_iff)
  note eq = join_room_eq [OF assms(1) refl u us_def]
  have room': "room_at srv' rid =
      (room_at srv rid)\<lparr>clients := insert (sock_id sock) (clients (room_at srv rid)), users := us\<rparr>"
    by (simp add: assms(3) eq room_at_sockets_update room_at_put_room)
  have ps: "ps = Map_values us"
    by (simp add: assms(4) room')
  have own: "u \<in> set ps" if "uid = Some u \<and> u \<noteq> []" for u
  proof -
    have "Map_get us (sock_id sock) = Some u"
      using that by (simp add: us_def Map_get_Map_set)
    then show ?thesis
      unfolding ps by (rule Map_get_in_values)
  qed
  have all: "u \<in> set ps" if "Map_get (users (room_at srv' rid)) s = Some u" for s u
    using that unfolding assms(4) by (rule Map_get_in_values)
  have falsy: "uid = None \<or> uid = Some [] \<Longrightarrow> ps = Map_values (users (room_at srv rid))"
    by (auto simp: ps us_def)
  show ?thesis
    using own all falsy by (simp add: eq ps room' us_def Map_values_def)
qed

theorem join_snapshot_witness:
  "snd (join_room ''u-1'' demo_sockC (Some ''r'') (Some ''A'') demo_server) =
     [(ToSocket ''s3'', RoomState ''r'' [demo_action] [''A'', ''B'', ''A'']),
      (ToOthers (Some ''r'') ''s3'', UserJoined (Some ''A''))] \<and>
   ''A'' \<in> set [''A'', ''B'', ''A''] \<and>
   snd (join_room ''u-1'' demo_sockC (Some ''r'') None demo_server) =
     [(ToSocket ''s3'', RoomState ''r'' [demo_action] [''A'', ''B'']),
      (ToOthers (Some ''r'') ''s3'', UserJoined None)]"
proof -
  have rid: "''r'' = (case Some ''r'' of None \<Rightarrow> ''u-1'' | Some r \<Rightarrow> if r = [] then ''u-1'' else r)"
    by simp
  have own: "''r'' \<notin> set inherited_keys"
    by (simp add: inherited_keys_def)
  have sid: "sock_id demo_sockC = ''s3''"
    by (simp add: demo_sockC_def)
  have log: "actions (room_at demo_server ''r'') = [demo_action]"
    and us: "users (room_at demo_server ''r'') = [(''s1'', ''A''), (''s2'', ''B'')]"
    by (simp_all add: demo_lookup demo_room_def)
  from join_snapshot [OF rid own refl refl, of demo_sockC "Some ''A''" demo_server]
  have m: "snd (join_room ''u-1'' demo_sockC (Some ''r'') (Some ''A'') demo_server) =
      [(ToSocket ''s3'', RoomState ''r'' [demo_action]
          (Map_values (users (room_at (fst (join_room ''u-1'' demo_sockC (Some ''r'') (Some ''A'')
              demo_server)) ''r'')))),
       (ToOthers (Some ''r'') ''s3'', UserJoined (Some ''A''))]"
    and u: "users (room_at (fst (join_room ''u-1'' demo_sockC (Some ''r'') (Some ''A'')
              demo_server)) ''r'') = Map_set [(''s1'', ''A''), (''s2'', ''B'')] ''s3'' ''A''"
    by (simp_all add: sid log us)
  from join_snapshot [OF rid own refl refl, of demo_sockC None demo_server]
  have n: "snd (join_room ''u-1'' demo_sockC (Some ''r'') None demo_server) =
      [(ToSocket ''s3'', RoomState ''r'' [demo_action] [''A'', ''B'']),
       (ToOthers (Some ''r'') ''s3'', UserJoined None)]"
    by (simp add: sid log us Map_values_def)
  show ?thesis
    by (simp add: m u n Map_values_def)
qed

text \<open>
  Claim C2 as stated fails at three joins by socket \<open>s3\<close>. Joining room \<open>r\<close> with the identity
  \<open>A\<close> that socket \<open>s1\<close> registered there, it receives a list that has \<open>A\<close> twice. Joining room
  \<open>r\<close> with the empty string as identity, it receives a list without its own identity.
  Joining the room id \<^verbatim>\<open>constructor\<close>, it receives nothing: the handler throws before it
  emits.
\<close>

theorem join_snapshot_counterexample:
  "snd (join_room ''u-1'' demo_sockC (Some ''r'') (Some ''A'') demo_server) =
     [(ToSocket ''s3'', RoomState ''r'' [demo_action] [''A'', ''B'', ''A'']),
      (ToOthers (Some ''r'') ''s3'', UserJoined (Some ''A''))] \<and>
   \<not> distinct [''A'', ''B'', ''A''] \<and>
   snd (join_room ''u-1'' demo_sockC (Some ''r'') (Some []) demo_server) =
     [(ToSocket ''s3'', RoomState ''r'' [demo_action] [''A'', ''B'']),
      (ToOthers (Some ''r'') ''s3'', UserJoined (Some []))] \<and>
   [] \<notin> set [''A'', ''B''] \<and>
   snd (join_room ''u-1'' demo_sockC (Some ''constructor'') (Some ''C'') demo_server) = [] \<and>
   uncaught (fst (join_room ''u-1'' demo_sockC (Some ''constructor'') (Some ''C'') demo_server)) =
     Some TypeError"
  by (simp add: join_room_def ensureRoom_def rooms_get_def inherited_keys_def raise_TypeError_def
      Let_def put_room_def demo_server_def demo_room_def demo_sockC_def Map_values_def)

subsection \<open>The log only grows\<close>

lemma map_update_same:
  assumes "f y = f (xs ! j)"
  shows "map f (xs[j := y]) = map f xs"
proof -
  have "map f (xs[j := y]) = (map f xs)[j := f (xs ! j)]"
    using assms by (simp add: map_update)
  also have "\<dots> = map f xs"
  proof (cases "j < length xs")
    case True
    then have "f (xs ! j) = map f xs ! j" by simp
    then show ?thesis by (simp only: list_update_id)
  next
    case False
    then have "length (map f xs) \<le> j" by simp
    then show ?thesis by (rule list_update_beyond)
  qed
  finally show ?thesis .
qed

lemma disconnect_log:
  "actions (room_at (fst (disconnect sock srv)) k) = actions (room_at srv k)"
  by (auto simp: disconnect_def Let_def room_at_def put_room_def raise_TypeError_def rooms_get_def
      split: option.splits slot.splits if_splits)

lemma join_room_log:
  "actions (room_at (fst (join_room uuid sock rid0 uid srv)) k) = actions (room_at srv k)"
proof (cases "usable srv (case rid0 of None \<Rightarrow> uuid | Some r \<Rightarrow> if r = [] then uuid else r)")
  case True
  show ?thesis
    by (simp add: join_room_eq [OF refl refl True refl] room_at_sockets_update room_at_put_room)
next
  case False
  show ?thesis
    by (simp add: join_room_thrown [OF refl False] raise_TypeError_def room_at_def)
qed

lemma room_at_raise: "room_at (fst (raise_TypeError srv)) k = room_at srv k"
  by (simp add: raise_TypeError_def room_at_def)

lemma add_action_log:
  "actions (room_at (fst (add_action sock a srv)) k) =
     (if k = room_key (roomId sock) \<and> usable srv k
      then actions (room_at srv k) @ [a] else actions (room_at srv k))"
  by (cases "usable srv (room_key (roomId sock))")
    (auto simp: add_action_eq add_action_thrown room_at_put_room room_at_raise)

lemma update_action_log:
  "map (\<lambda>a. a\<lparr>act_data := None\<rparr>) (actions (room_at (fst (update_action sock aid dat replace uid srv)) k))
     = map (\<lambda>a. a\<lparr>act_data := None\<rparr>) (actions (room_at srv k))"
proof (cases "findIndex (\<lambda>a. act_id a = aid) (actions (room_at srv (room_key (roomId sock)))) = - 1")
  case True
  then show ?thesis
    by (cases "usable srv (room_key (roomId sock))")
      (simp_all add: update_action_miss update_action_thrown room_at_ensureRoom room_at_raise)
next
  case False
  show ?thesis
    unfolding update_action_found [OF refl refl refl False refl]
    by (simp add: room_at_put_room map_update_same)
qed

lemma undo_action_log:
  "map (\<lambda>a. a\<lparr>act_undone := None\<rparr>) (actions (room_at (fst (undo_action sock aid uid srv)) k))
     = map (\<lambda>a. a\<lparr>act_undone := None\<rparr>) (actions (room_at srv k))"
proof (cases "findIndex (\<lambda>a. act_id a = aid) (actions (room_at srv (room_key (roomId sock)))) = - 1")
  case True
  then show ?thesis
    by (cases "usable srv (room_key (roomId sock))")
      (simp_all add: undo_action_miss undo_action_thrown room_at_ensureRoom room_at_raise)
next
  case False
  show ?thesis
    unfolding undo_action_found [OF refl refl refl False refl]
    by (simp add: room_at_put_room map_update_same)
qed

lemma redo_action_log:
  "map (\<lambda>a. a\<lparr>act_undone := None\<rparr>) (actions (room_at (fst (redo_action sock aid uid srv)) k))
     = map (\<lambda>a. a\<lparr>act_undone := None\<rparr>) (actions (room_at srv k))"
proof (cases "findIndex (\<lambda>a. act_id a = aid) (actions (room_at srv (room_key (roomId sock)))) = - 1")
  case True
  then show ?thesis
    by (cases "usable srv (room_key (roomId sock))")
      (simp_all add: redo_action_miss redo_action_thrown room_at_ensureRoom room_at_raise)
next
  case False
  show ?thesis
    unfolding redo_action_found [OF refl refl refl False refl]
    by (simp add: room_at_put_room map_update_same)
qed

lemma fixed_part_via_data:
  "map (\<lambda>a. a\<lparr>act_data := None\<rparr>) xs = map (\<lambda>a. a\<lparr>act_data := None\<rparr>) ys \<Longrightarrow>
   map fixed_part xs = map fixed_part ys"
proof -
  assume "map (\<lambda>a. a\<lparr>act_data := None\<rparr>) xs = map (\<lambda>a. a\<lparr>act_data := None\<rparr>) ys"
  then have "map fixed_part (map (\<lambda>a. a\<lparr>act_data := None\<rparr>) xs) =
      map fixed_part (map (\<lambda>a. a\<lparr>act_data := None\<rparr>) ys)"
    by simp
  then show ?thesis
    by (simp add: o_def fixed_part_def [abs_def])
qed

lemma fixed_part_via_undone:
  "map (\<lambda>a. a\<lparr>act_undone := None\<rparr>) xs = map (\<lambda>a. a\<lparr>act_undone := None\<rparr>) ys \<Longrightarrow>
   map fixed_part xs = map fixed_part ys"
proof -
  assume "map (\<lambda>a. a\<lparr>act_undone := None\<rparr>) xs = map (\<lambda>a. a\<lparr>act_undone := None\<rparr>) ys"
  then have "map fixed_part (map (\<lambda>a. a\<lparr>act_undone := None\<rparr>) xs) =
      map fixed_part (map (\<lambda>a. a\<lparr>act_undone := None\<rparr>) ys)"
    by simp
  then show ?thesis
    by (simp add: o_def fixed_part_def [abs_def])
qed

lemma step_log:
  "prefix (map fixed_part (actions (room_at srv k)))
          (map fixed_part (actions (room_at (fst (step srv ev)) k)))"
proof (cases "uncaught srv = None")
  case False
  then show ?thesis by (simp add: step_def)
next
  case live: True
  show ?thesis
  proof (cases "sockets srv (fst ev)")
    case None
    then show ?thesis
      using live by (cases "snd ev") (simp_all add: step_def connect_def room_at_sockets_update)
  next
    case (Some sock)
    show ?thesis
    proof (cases "snd ev")
      case Connect
      then show ?thesis using Some live by (simp add: step_def)
    next
      case (JoinRoom rid uid uuid)
      then show ?thesis using Some live by (simp add: step_def join_room_log)
    next
      case (AddAction a)
      then show ?thesis using Some live by (simp add: step_def add_action_log)
    next
      case (UpdateAction aid dat replace uid)
      then show ?thesis
        using Some live fixed_part_via_data [OF update_action_log [of sock aid dat replace uid srv k]]
        by (simp add: step_def)
    next
      case (UndoAction aid uid)
      then show ?thesis
        using Some live fixed_part_via_undone [OF undo_action_log [of sock aid uid srv k]]
        by (simp add: step_def)
    next
      case (RedoAction aid uid)
      then show ?thesis
        using Some live fixed_part_via_undone [OF redo_action_log [of sock aid uid srv k]]
        by (simp add: step_def)
    next
      case Disconnect
      then show ?thesis using Some live by (simp add: step_def disconnect_log)
    qed
  qed
qed

lemma run_log:
  "prefix (map fixed_part (actions (room_at srv k)))
          (map fixed_part (actions (room_at (run srv evs) k)))"
proof (induction evs arbitrary: srv)
  case Nil
  then show ?case by simp
next
  case (Cons ev evs)
  show ?case
    using step_log [of srv k ev] Cons.IH [of "fst (step srv ev)"]
    by (auto intro: prefix_order.trans)
qed

lemma rooms_kept_put_room:
  "rooms srv k \<noteq> None \<Longrightarrow> rooms (put_room srv k' r) k \<noteq> None"
  by (simp add: rooms_put_room)

lemma rooms_ensureRoom_kept:
  "rooms srv k \<noteq> None \<Longrightarrow> rooms (fst (ensureRoom srv rid)) k \<noteq> None"
  by (cases "usable srv (room_key rid)")
    (auto simp: ensureRoom_eq ensureRoom_inherited rooms_put_room)

lemma rooms_raise: "rooms (fst (raise_TypeError srv)) = rooms srv"
  by (simp add: raise_TypeError_def)

lemma handler_rooms_kept:
  assumes "rooms srv k \<noteq> None"
  shows "rooms (fst (join_room uuid sock rid0 uid srv)) k \<noteq> None"
    and "rooms (fst (add_action sock a srv)) k \<noteq> None"
    and "rooms (fst (update_action sock aid dat replace uid srv)) k \<noteq> None"
    and "rooms (fst (undo_action sock aid uid srv)) k \<noteq> None"
    and "rooms (fst (redo_action sock aid uid srv)) k \<noteq> None"
    and "rooms (fst (disconnect sock srv)) k \<noteq> None"
proof -
  show "rooms (fst (join_room uuid sock rid0 uid srv)) k \<noteq> None"
  proof (cases "usable srv (case rid0 of None \<Rightarrow> uuid | Some r \<Rightarrow> if r = [] then uuid else r)")
    case True
    show ?thesis
      using assms by (simp add: join_room_eq [OF refl refl True refl] rooms_put_room)
  next
    case False
    show ?thesis
      using assms by (simp add: join_room_thrown [OF refl False] raise_TypeError_def)
  qed
  show "rooms (fst (add_action sock a srv)) k \<noteq> None"
    using assms
    by (cases "usable srv (room_key (roomId sock))")
      (simp_all add: add_action_eq add_action_thrown rooms_put_room rooms_raise)
  have miss: "rooms (fst (ensureRoom srv (roomId sock))) k \<noteq> None"
    using assms by (rule rooms_ensureRoom_kept)
  show "rooms (fst (update_action sock aid dat replace uid srv)) k \<noteq> None"
  proof (cases "findIndex (\<lambda>a. act_id a = aid) (actions (room_at srv (room_key (roomId sock)))) = - 1")
    case True
    then show ?thesis
      using assms miss
      by (cases "usable srv (room_key (roomId sock))")
        (simp_all add: update_action_miss update_action_thrown rooms_raise)
  next
    case False
    show ?thesis
      using assms
      by (simp add: update_action_found [OF refl refl refl False refl] rooms_put_room)
  qed
  show "rooms (fst (undo_action sock aid uid srv)) k \<noteq> None"
  proof (cases "findIndex (\<lambda>a. act_id a = aid) (actions (room_at srv (room_key (roomId sock)))) = - 1")
    case True
    then show ?thesis
      using assms miss
      by (cases "usable srv (room_key (roomId sock))")
        (simp_all add: undo_action_miss undo_action_thrown rooms_raise)
  next
    case False
    show ?thesis
      using assms
      by (simp add: undo_action_found [OF refl refl refl False refl] rooms_put_room)
  qed
  show "rooms (fst (redo_action sock aid uid srv)) k \<noteq> None"
  proof (cases "findIndex (\<lambda>a. act_id a = aid) (actions (room_at srv (room_key (roomId sock)))) = - 1")
    case True
    then show ?thesis
      using assms miss
      by (cases "usable srv (room_key (roomId sock))")
        (simp_all add: redo_action_miss redo_action_thrown rooms_raise)
  next
    case False
    show ?thesis
      using assms
      by (simp add: redo_action_found [OF refl refl refl False refl] rooms_put_room)
  qed
  show "rooms (fst (disconnect sock srv)) k \<noteq> None"
    using assms
    by (auto simp: disconnect_def Let_def rooms_put_room raise_TypeError_def
        split: option.splits slot.splits)
qed

lemma step_rooms_kept: "rooms srv k \<noteq> None \<Longrightarrow> rooms (fst (step srv ev)) k \<noteq> None"
  using handler_rooms_kept [of srv k]
  by (auto simp: step_def connect_def split: option.splits intent.splits)

lemma run_rooms_kept: "rooms srv k \<noteq> None \<Longrightarrow> rooms (run srv evs) k \<noteq> None"
proof (induction evs arbitrary: srv)
  case Nil
  then show ?case by simp
next
  case (Cons ev evs)
  have "rooms (fst (step srv ev)) k \<noteq> None"
    using Cons.prems by (rule step_rooms_kept)
  then have "rooms (run (fst (step srv ev)) evs) k \<noteq> None"
    by (rule Cons.IH)
  then show ?case by simp
qed

lemma fixed_part_eq_iff:
  "(fixed_part b = fixed_part a) = (b = a\<lparr>act_data := act_data b, act_undone := act_undone b\<rparr>)"
  by (cases a, cases b) (auto simp: fixed_part_def)

lemma act_id_fixed_part: "map act_id (map fixed_part xs) = map act_id xs"
  and act_userId_fixed_part: "map act_userId (map fixed_part xs) = map act_userId xs"
  by (simp_all add: fixed_part_def o_def)

lemma run_ids:
  "prefix (map act_id (actions (room_at srv k))) (map act_id (actions (room_at (run srv evs) k)))"
  using map_mono_prefix [OF run_log [of srv k evs], of act_id]
  by (simp only: act_id_fixed_part)

lemma run_owners:
  "prefix (map act_userId (actions (room_at srv k)))
          (map act_userId (actions (room_at (run srv evs) k)))"
  using map_mono_prefix [OF run_log [of srv k evs], of act_userId]
  by (simp only: act_userId_fixed_part)

lemma demo_run_log:
  "actions (room_at (run demo_server demo_run) ''r'') =
     [demo_action\<lparr>act_undone := Some True\<rparr>, demo_action]"
  by (simp add: demo_run_def step_def undo_action_def add_action_def disconnect_def
      ensureRoom_def rooms_get_def put_room_def room_at_def Let_def findIndex_def
      demo_server_def demo_room_def demo_sockA_def demo_sockB_def demo_sockC_def demo_action_def
      Map_has_def Map_get_def Map_delete_def)

text \<open>
  Claim C3. Over any sequence of connections, joins, creates, updates, undos, redos and
  disconnects, on any sockets, the log of every room keeps its length or grows, the ids of
  its entries stay where they were (the old sequence of ids is a prefix of the new one),
  and an entry at an old position differs from the old entry in \<^verbatim>\<open>data\<close> and \<^verbatim>\<open>undone\<close> at most.
  A room in the registry stays in the registry.
\<close>

theorem log_append_only:
  assumes "old = actions (room_at srv k)" and "new = actions (room_at (run srv evs) k)"
  shows "length old \<le> length new \<and>
         prefix (map act_id old) (map act_id new) \<and>
         (\<forall>i < length old.
            new ! i = (old ! i)\<lparr>act_data := act_data (new ! i), act_undone := act_undone (new ! i)\<rparr>) \<and>
         (rooms srv k \<noteq> None \<longrightarrow> rooms (run srv evs) k \<noteq> None)"
proof -
  have p: "prefix (map fixed_part old) (map fixed_part new)"
    unfolding assms by (rule run_log)
  then obtain zs where zs: "map fixed_part new = map fixed_part old @ zs"
    by (auto simp: prefix_def)
  have len: "length old \<le> length new"
    using prefix_length_le [OF p] by simp
  have entry: "new ! i = (old ! i)\<lparr>act_data := act_data (new ! i), act_undone := act_undone (new ! i)\<rparr>"
    if "i < length old" for i
  proof -
    have "map fixed_part new ! i = map fixed_part old ! i"
      using that by (simp add: zs nth_append)
    then have "fixed_part (new ! i) = fixed_part (old ! i)"
      using that len by simp
    then show ?thesis
      by (simp only: fixed_part_eq_iff)
  qed
  show ?thesis
    using len entry run_ids [of srv k evs] run_rooms_kept [of srv k evs]
    unfolding assms by blast
qed

theorem log_append_only_witness:
  "actions (room_at (run demo_server demo_run) ''r'') ! 0
     = demo_action\<lparr>act_data := act_data (actions (room_at (run demo_server demo_run) ''r'') ! 0),
         act_undone := act_undone (actions (room_at (run demo_server demo_run) ''r'') ! 0)\<rparr> \<and>
   1 \<le> length (actions (room_at (run demo_server demo_run) ''r'')) \<and>
   rooms (run demo_server demo_run) ''r'' \<noteq> None \<and>
   actions (room_at (run demo_server demo_run) ''r'') =
     [demo_action\<lparr>act_undone := Some True\<rparr>, demo_action]"
proof -
  have old: "[demo_action] = actions (room_at demo_server ''r'')"
    by (simp add: demo_lookup demo_room_def)
  have present: "rooms demo_server ''r'' \<noteq> None"
    by (simp add: demo_server_def)
  show ?thesis
    using log_append_only [OF old refl, of demo_run] present demo_run_log by simp
qed

text \<open>
  Claim C8. An update changes no field of any entry of any log other than \<^verbatim>\<open>data\<close>, an undo
  or a redo none other than \<^verbatim>\<open>undone\<close>: in particular the \<^verbatim>\<open>id\<close> and the \<^verbatim>\<open>userId\<close> of every
  entry are what they were. Over any run of the server the ids and the owners recorded in a
  log stay in place, so an entry keeps the \<^verbatim>\<open>id\<close> and \<^verbatim>\<open>userId\<close> it was added with.
\<close>

theorem id_and_owner_fixed:
  "map (\<lambda>a. a\<lparr>act_data := None\<rparr>)
       (actions (room_at (fst (update_action sock aid dat replace uid srv)) k)) =
     map (\<lambda>a. a\<lparr>act_data := None\<rparr>) (actions (room_at srv k)) \<and>
   map (\<lambda>a. a\<lparr>act_undone := None\<rparr>) (actions (room_at (fst (undo_action sock aid uid srv)) k)) =
     map (\<lambda>a. a\<lparr>act_undone := None\<rparr>) (actions (room_at srv k)) \<and>
   map (\<lambda>a. a\<lparr>act_undone := None\<rparr>) (actions (room_at (fst (redo_action sock aid uid srv)) k)) =
     map (\<lambda>a. a\<lparr>act_undone := None\<rparr>) (actions (room_at srv k)) \<and>
   (\<forall>h \<in> {update_action sock aid dat replace uid srv, undo_action sock aid uid srv,
            redo_action sock aid uid srv}.
      map act_id (actions (room_at (fst h) k)) = map act_id (actions (room_at srv k)) \<and>
      map act_userId (actions (room_at (fst h) k)) = map act_userId (actions (room_at srv k))) \<and>
   prefix (map act_id (actions (room_at srv k)))
          (map act_id (actions (room_at (run srv evs) k))) \<and>
   prefix (map act_userId (actions (room_at srv k)))
          (map act_userId (actions (room_at (run srv evs) k)))"
proof -
  note u = update_action_log [of sock aid dat replace uid srv k]
  note un = undo_action_log [of sock aid uid srv k]
  note re = redo_action_log [of sock aid uid srv k]
  have fixed: "map fixed_part (actions (room_at (fst h) k)) = map fixed_part (actions (room_at srv k))"
    if "h \<in> {update_action sock aid dat replace uid srv, undo_action sock aid uid srv,
            redo_action sock aid uid srv}" for h
    using that fixed_part_via_data [OF u] fixed_part_via_undone [OF un] fixed_part_via_undone [OF re]
    by auto
  have ids: "map act_id (actions (room_at (fst h) k)) = map act_id (actions (room_at srv k)) \<and>
      map act_userId (actions (room_at (fst h) k)) = map act_userId (actions (room_at srv k))"
    if "h \<in> {update_action sock aid dat replace uid srv, undo_action sock aid uid srv,
            redo_action sock aid uid srv}" for h
    using arg_cong [OF fixed [OF that], of "map act_id"]
      arg_cong [OF fixed [OF that], of "map act_userId"]
    by (simp only: act_id_fixed_part act_userId_fixed_part)
  show ?thesis
    using u un re ids run_ids [of srv k evs] run_owners [of srv k evs] by blast
qed

theorem id_and_owner_fixed_witness:
  "map act_id (actions (room_at (fst (update_action demo_sockA (Some ''a1'') (Some [''x'' \<mapsto> 7])
       False (Some ''A'') demo_server)) ''r'')) = [Some ''a1''] \<and>
   map act_userId (actions (room_at (fst (undo_action demo_sockA (Some ''a1'') (Some ''A'')
       demo_server)) ''r'')) = [Some ''A''] \<and>
   map act_userId (actions (room_at (fst (redo_action demo_sockB (Some ''a1'') (Some ''B'')
       demo_server)) ''r'')) = [Some ''A'']"
proof -
  have old: "map act_id (actions (room_at demo_server ''r'')) = [Some ''a1'']"
    "map act_userId (actions (room_at demo_server ''r'')) = [Some ''A'']"
    by (simp_all add: demo_lookup demo_room_def demo_action_def)
  show ?thesis
    using id_and_owner_fixed [of demo_sockA "Some ''a1''" "Some [''x'' \<mapsto> 7]" False "Some ''A''"
        demo_server "''r''" "[]"]
      id_and_owner_fixed [of demo_sockB "Some ''a1''" None False "Some ''B''" demo_server "''r''" "[]"]
    by (simp add: old)
qed

subsection \<open>The sockets of a server that was started empty\<close>













subsection \<open>Who receives what\<close>






end
